theory Spec2Isabelle
  imports Main
begin

section \<open>Python list slicing\<close>

text \<open>
  The driver splits its notebook list with the slices \<^verbatim>\<open>NOTEBOOKS[:-2]\<close> and
  \<^verbatim>\<open>NOTEBOOKS[-2:]\<close>. A slice bound \<open>k\<close> of a list of length \<open>n\<close> is
  clamped by Python: a negative bound becomes \<open>max 0 (n + k)\<close>, a non-negative one
  \<open>min k n\<close>.
\<close>

definition slice_bound :: "nat \<Rightarrow> int \<Rightarrow> nat" where
  "slice_bound n k = (if k < 0 then nat (max 0 (int n + k)) else nat (min k (int n)))"

definition slice_to :: "'a list \<Rightarrow> int \<Rightarrow> 'a list" where
  \<comment> \<open>\<^verbatim>\<open>xs[:k]\<close>\<close>
  "slice_to xs k = take (slice_bound (length xs) k) xs"

definition slice_from :: "'a list \<Rightarrow> int \<Rightarrow> 'a list" where
  \<comment> \<open>\<^verbatim>\<open>xs[k:]\<close>\<close>
  "slice_from xs k = drop (slice_bound (length xs) k) xs"

section \<open>Partition of the notebook list\<close>

text \<open>
  Lines 94 and 95 of \<^verbatim>\<open>run_note.py\<close>. Both branches of each conditional are the
  same slice, as in the source.
\<close>

definition seq_part :: "'a list \<Rightarrow> 'a list" where
  "seq_part NOTEBOOKS =
     (if 3 \<le> length NOTEBOOKS then slice_to NOTEBOOKS (- 2) else slice_to NOTEBOOKS (- 2))"

definition par_part :: "'a list \<Rightarrow> 'a list" where
  "par_part NOTEBOOKS =
     (if 2 \<le> length NOTEBOOKS then slice_from NOTEBOOKS (- 2) else slice_from NOTEBOOKS (- 2))"

section \<open>Paths\<close>

text \<open>
  \<^verbatim>\<open>pathlib.Path\<close> on a POSIX system. A path is its root (empty for a relative
  path, one slash, or two slashes when the string starts with exactly two) and its
  components; parsing a string drops empty components and single dots and keeps
  double dots.
\<close>

record path =
  root :: string
  parts :: "string list"

fun split_sep :: "string \<Rightarrow> string list" where
  \<comment> \<open>\<^verbatim>\<open>s.split('/')\<close>\<close>
  "split_sep [] = [[]]"
| "split_sep (c # cs) =
     (if c = CHR ''/'' then [] # split_sep cs
      else (case split_sep cs of [] \<Rightarrow> [[c]] | w # ws \<Rightarrow> (c # w) # ws))"

definition splitroot :: "string \<Rightarrow> string \<times> string" where
  \<comment> \<open>\<^verbatim>\<open>posixpath.splitroot\<close>: the root and the rest\<close>
  "splitroot p =
     (if take 1 p \<noteq> ''/'' then ([], p)
      else if take 1 (drop 1 p) \<noteq> ''/'' \<or> take 1 (drop 2 p) = ''/'' then (''/'', drop 1 p)
      else (take 2 p, drop 2 p))"

definition Path :: "string \<Rightarrow> path" where
  \<comment> \<open>\<^verbatim>\<open>Path(s)\<close>\<close>
  "Path s =
     (case splitroot s of
        (r, rel) \<Rightarrow> \<lparr>root = r, parts = filter (\<lambda>x. x \<noteq> [] \<and> x \<noteq> ''.'') (split_sep rel)\<rparr>)"

definition is_absolute :: "path \<Rightarrow> bool" where
  "is_absolute p = (root p \<noteq> [])"

definition joinpath :: "path \<Rightarrow> string \<Rightarrow> path" where
  \<comment> \<open>\<^verbatim>\<open>p / s\<close>: an absolute right operand replaces the left one\<close>
  "joinpath p s =
     (let q = Path s
      in if is_absolute q then q else \<lparr>root = root p, parts = parts p @ parts q\<rparr>)"

definition name :: "path \<Rightarrow> string" where
  "name p = (if parts p = [] then [] else last (parts p))"

definition rfind :: "char \<Rightarrow> string \<Rightarrow> nat option" where
  \<comment> \<open>\<^verbatim>\<open>s.rfind(c)\<close>, with \<open>None\<close> where Python returns \<open>-1\<close>\<close>
  "rfind c s =
     (if c \<in> set s then Some (length s - 1 - length (takeWhile (\<lambda>x. x \<noteq> c) (rev s)))
      else None)"

definition stem :: "path \<Rightarrow> string" where
  \<comment> \<open>the final component without its last suffix; a leading or a trailing dot
      starts no suffix (Python up to 3.13)\<close>
  "stem p =
     (case rfind CHR ''.'' (name p) of
        None \<Rightarrow> name p
      | Some i \<Rightarrow> if 0 < i \<and> i < length (name p) - 1 then take i (name p) else name p)"

definition parent :: "path \<Rightarrow> path" where
  "parent p = (if parts p = [] then p else p\<lparr>parts := butlast (parts p)\<rparr>)"

fun collapse :: "string list \<Rightarrow> string list \<Rightarrow> string list" where
  \<comment> \<open>components walked so far, components still to walk: a double dot steps back\<close>
  "collapse acc [] = acc"
| "collapse acc (c # cs) =
     (if c = ''..'' then collapse (butlast acc) cs else collapse (acc @ [c]) cs)"


section \<open>Configuration, collaborators and effects\<close>

text \<open>The module constants of \<^verbatim>\<open>run_note.py\<close> (lines 30 to 42).\<close>

record config =
  NOTEBOOKS :: "string list"
  KERNEL_NAME :: string
  TIMEOUT_SEC :: int
  ALLOW_ERRORS :: bool
  OUT_DIRNAME :: string

definition default_config :: config where
  "default_config =
     \<lparr>NOTEBOOKS =
        [''code/03a_train_test_split.ipynb'', ''code/03b_feature_extraction.ipynb'',
         ''code/03c_feature_engineering.ipynb'', ''code/04a_modeling_lr.ipynb'',
         ''code/04b_modeling_lr.ipynb''],
      KERNEL_NAME = ''python3'', TIMEOUT_SEC = 3600, ALLOW_ERRORS = False,
      OUT_DIRNAME = ''executed''\<rparr>"

text \<open>
  The exceptions that reach the caller of \<^verbatim>\<open>run_notebook\<close>: the one it raises
  itself for a missing notebook, the engine's cell execution error, and any other
  exception of a collaborator (the operating system, \<^verbatim>\<open>nbformat\<close>, the engine, the
  console), kept as its message. All of them are subclasses of \<^verbatim>\<open>Exception\<close>.
\<close>

datatype exn = FileNotFoundError path | CellExecutionError string | OtherError string

text \<open>
  What \<^verbatim>\<open>ep.preprocess\<close> does to the notebook document it is given: it fills in
  the outputs and returns, or raises \<^verbatim>\<open>CellExecutionError\<close> and leaves the document
  partially executed, or raises something else.
\<close>

datatype 'd engine_result = Completed 'd | CellFailed string 'd | Crashed string

text \<open>
  The three lines \<^verbatim>\<open>run_notebook\<close> prints: the start (line 52), the failure with
  the path of the partial copy (line 73), the success with the path of the copy
  (line 82).
\<close>

datatype message = Starting path | PartialSaved path path | Finished path

text \<open>
  The order in which the work of a pool of two happens: each task as soon as it is
  submitted, before the next entry is resolved (\<open>Eager\<close>); or after both
  submissions, the first task first (\<open>InOrder\<close>) or the second first
  (\<open>Swapped\<close>).
\<close>

datatype schedule = Eager | InOrder | Swapped

text \<open>
  The file system, the console and the engine are collaborators the script does not
  define. The model takes them as functions on a state \<open>'s\<close> of the outside world,
  so every theorem holds for whatever they do:
  \<^item> \<open>getcwd\<close> is the working directory of the process as \<^verbatim>\<open>os.getcwd()\<close> returns it;
  \<^item> \<open>follow\<close> is the walk of \<^verbatim>\<open>resolve()\<close> described above;
  \<^item> \<open>path_exists\<close> is \<^verbatim>\<open>nb_path.exists()\<close>, which answers or raises an
    \<^verbatim>\<open>OSError\<close> (permission denied, name too long);
  \<^item> \<open>print_msg\<close> is \<^verbatim>\<open>print\<close>, which can raise (an encoding error, a closed
    stream);
  \<^item> \<open>read_nb\<close> opens the file and parses it with \<^verbatim>\<open>nbformat.read\<close>;
  \<^item> \<open>preprocess\<close> is the engine (time limit, kernel name, error tolerance, working
    directory, document);
  \<^item> \<open>mkdir\<close> is \<^verbatim>\<open>mkdir(parents=True, exist_ok=True)\<close>;
  \<^item> \<open>open_w\<close> is \<^verbatim>\<open>open("w")\<close>, which creates the target or empties it;
  \<^item> \<open>nbformat_write\<close> serialises the document into the opened target;
  \<^item> \<open>pool_schedule\<close> is the order in which the pool does its work.

  An \<open>Inl\<close> result is the message of the exception the call raised. A call that
  raises leaves the state as it was; the engine returns the state it leaves behind
  in every case.
\<close>

record ('s, 'd) env =
  getcwd :: string
  follow :: "'s \<Rightarrow> string list \<Rightarrow> string + string list"
  path_exists :: "'s \<Rightarrow> path \<Rightarrow> string + bool"
  print_msg :: "'s \<Rightarrow> message \<Rightarrow> string + 's"
  read_nb :: "'s \<Rightarrow> path \<Rightarrow> string + 'd"
  preprocess :: "'s \<Rightarrow> int \<Rightarrow> string \<Rightarrow> bool \<Rightarrow> path \<Rightarrow> 'd \<Rightarrow> 'd engine_result \<times> 's"
  mkdir :: "'s \<Rightarrow> path \<Rightarrow> string + 's"
  open_w :: "'s \<Rightarrow> path \<Rightarrow> string + 's"
  nbformat_write :: "'s \<Rightarrow> path \<Rightarrow> 'd \<Rightarrow> string + 's"
  pool_schedule :: schedule

definition resolve :: "('s, 'd) env \<Rightarrow> 's \<Rightarrow> path \<Rightarrow> path \<Rightarrow> string + path" where
  \<comment> \<open>\<^verbatim>\<open>p.resolve()\<close> in the working directory \<open>wd\<close>\<close>
  "resolve env s wd p =
     (case follow env s (if is_absolute p then parts p else parts wd @ parts p) of
        Inl e \<Rightarrow> Inl e
      | Inr ps \<Rightarrow> Inr \<lparr>root = ''/'', parts = ps\<rparr>)"

text \<open>
  The effects a run leaves behind, in order: \<open>Invoke p\<close> for a call of
  \<^verbatim>\<open>run_notebook\<close> on \<open>p\<close>, \<open>Print m\<close> for a line printed by it, \<open>Read p\<close>
  for opening and parsing \<open>p\<close>, \<open>Execute p\<close> for an engine run on the document
  of \<open>p\<close>, \<open>Mkdir d\<close> for a successful \<^verbatim>\<open>mkdir\<close>, \<open>Create p\<close> for a target
  opened for writing (so created, or emptied), \<open>Write p nb\<close> for a document
  serialised into \<open>p\<close>, and \<open>Pool n\<close> for a process pool created with \<open>n\<close>
  workers. What \<^verbatim>\<open>main\<close> itself prints is not modelled.
\<close>

datatype 'd event =
  Invoke path | Print message | Read path | Execute path | Mkdir path | Create path
  | Write path 'd | Pool nat

fun created :: "'d event list \<Rightarrow> path list" where
  "created [] = []"
| "created (Create p # evs) = p # created evs"
| "created (e # evs) = created evs"

fun written :: "'d event list \<Rightarrow> path list" where
  "written [] = []"
| "written (Write p nb # evs) = p # written evs"
| "written (e # evs) = written evs"

fun invoked :: "'d event list \<Rightarrow> path list" where
  "invoked [] = []"
| "invoked (Invoke p # evs) = p # invoked evs"
| "invoked (e # evs) = invoked evs"

fun executed :: "'d event list \<Rightarrow> path list" where
  "executed [] = []"
| "executed (Execute p # evs) = p # executed evs"
| "executed (e # evs) = executed evs"

fun pools :: "'d event list \<Rightarrow> nat list" where
  "pools [] = []"
| "pools (Pool n # evs) = n # pools evs"
| "pools (e # evs) = pools evs"

section \<open>Executing one notebook\<close>

text \<open>
  The names of the two copies (lines 70 and 78).
\<close>

definition failed_path :: "path \<Rightarrow> path \<Rightarrow> path" where
  "failed_path out_dir nb_path = joinpath out_dir (stem nb_path @ ''_FAILED.ipynb'')"

definition out_path :: "path \<Rightarrow> path \<Rightarrow> path" where
  "out_path out_dir nb_path = joinpath out_dir (stem nb_path @ ''_executed.ipynb'')"

text \<open>
  Lines 69 to 72 and again lines 77 to 80: create the output directory, open the
  target, write the document into it. An error of the write leaves the opened
  target behind.
\<close>

definition write_copy ::
  "('s, 'd) env \<Rightarrow> 's \<Rightarrow> path \<Rightarrow> path \<Rightarrow> 'd \<Rightarrow> (string + path) \<times> 's \<times> 'd event list" where
  "write_copy env s out_dir target nb =
     (case mkdir env s out_dir of
        Inl e \<Rightarrow> (Inl e, s, [])
      | Inr s1 \<Rightarrow>
          (case open_w env s1 target of
             Inl e \<Rightarrow> (Inl e, s1, [Mkdir out_dir])
           | Inr s2 \<Rightarrow>
               (case nbformat_write env s2 target nb of
                  Inl e \<Rightarrow> (Inl e, s2, [Mkdir out_dir, Create target])
                | Inr s3 \<Rightarrow>
                    (Inr target, s3, [Mkdir out_dir, Create target, Write target nb]))))"

text \<open>
  Lines 49 to 67, up to the engine: what the engine did with the notebook, when the
  call got that far (\<open>None\<close> when the check, the first print or the read raised, or
  the notebook is missing).
\<close>

definition engine_run ::
  "('s, 'd) env \<Rightarrow> config \<Rightarrow> path \<Rightarrow> 's \<Rightarrow> ('d engine_result \<times> 's) option" where
  "engine_run env cfg nb_path s =
     (case path_exists env s nb_path of
        Inl e \<Rightarrow> None
      | Inr found \<Rightarrow>
          if \<not> found then None
          else
            (case print_msg env s (Starting nb_path) of
               Inl e \<Rightarrow> None
             | Inr s0 \<Rightarrow>
                 (case read_nb env s0 nb_path of
                    Inl e \<Rightarrow> None
                  | Inr nb \<Rightarrow>
                      Some (preprocess env s0 (TIMEOUT_SEC cfg) (KERNEL_NAME cfg)
                              (ALLOW_ERRORS cfg) (parent nb_path) nb))))"

text \<open>
  \<^verbatim>\<open>run_notebook\<close> (lines 44 to 83). The result is the raised exception or the
  returned path, together with the state of the outside world and the effects.
\<close>

definition run_notebook ::
  "('s, 'd) env \<Rightarrow> config \<Rightarrow> path \<Rightarrow> path \<Rightarrow> 's \<Rightarrow> (exn + path) \<times> 's \<times> 'd event list" where
  "run_notebook env cfg nb_path out_dir s =
     (case path_exists env s nb_path of
        Inl e \<Rightarrow> (Inl (OtherError e), s, [Invoke nb_path])
      | Inr found \<Rightarrow>
          if \<not> found then (Inl (FileNotFoundError nb_path), s, [Invoke nb_path])
          else
            (case print_msg env s (Starting nb_path) of
               Inl e \<Rightarrow> (Inl (OtherError e), s, [Invoke nb_path])
             | Inr s0 \<Rightarrow>
                 (case read_nb env s0 nb_path of
                    Inl e \<Rightarrow>
                      (Inl (OtherError e), s0,
                       [Invoke nb_path, Print (Starting nb_path), Read nb_path])
                  | Inr nb \<Rightarrow>
                      (case preprocess env s0 (TIMEOUT_SEC cfg) (KERNEL_NAME cfg)
                              (ALLOW_ERRORS cfg) (parent nb_path) nb of
                         (Crashed e, s1) \<Rightarrow>
                           (Inl (OtherError e), s1,
                            [Invoke nb_path, Print (Starting nb_path), Read nb_path,
                             Execute nb_path])
                       | (CellFailed exc nb1, s1) \<Rightarrow>
                           (case write_copy env s1 out_dir (failed_path out_dir nb_path) nb1 of
                              (Inl e, s2, evs) \<Rightarrow>
                                (Inl (OtherError e), s2,
                                 [Invoke nb_path, Print (Starting nb_path), Read nb_path,
                                  Execute nb_path] @ evs)
                            | (Inr saved, s2, evs) \<Rightarrow>
                                (case print_msg env s2 (PartialSaved nb_path saved) of
                                   Inl e \<Rightarrow>
                                     (Inl (OtherError e), s2,
                                      [Invoke nb_path, Print (Starting nb_path), Read nb_path,
                                       Execute nb_path] @ evs)
                                 | Inr s3 \<Rightarrow>
                                     (Inl (CellExecutionError exc), s3,
                                      [Invoke nb_path, Print (Starting nb_path), Read nb_path,
                                       Execute nb_path] @ evs
                                      @ [Print (PartialSaved nb_path saved)])))
                       | (Completed nb1, s1) \<Rightarrow>
                           (case write_copy env s1 out_dir (out_path out_dir nb_path) nb1 of
                              (Inl e, s2, evs) \<Rightarrow>
                                (Inl (OtherError e), s2,
                                 [Invoke nb_path, Print (Starting nb_path), Read nb_path,
                                  Execute nb_path] @ evs)
                            | (Inr saved, s2, evs) \<Rightarrow>
                                (case print_msg env s2 (Finished saved) of
                                   Inl e \<Rightarrow>
                                     (Inl (OtherError e), s2,
                                      [Invoke nb_path, Print (Starting nb_path), Read nb_path,
                                       Execute nb_path] @ evs)
                                 | Inr s3 \<Rightarrow>
                                     (Inr saved, s3,
                                      [Invoke nb_path, Print (Starting nb_path), Read nb_path,
                                       Execute nb_path] @ evs
                                      @ [Print (Finished saved)])))))))"

section \<open>The batch\<close>

text \<open>
  Lines 101 and 114: the path handed to \<^verbatim>\<open>run_notebook\<close> for a list entry, or the
  message of the exception \<^verbatim>\<open>resolve()\<close> raised. Neither line is inside a
  \<^verbatim>\<open>try\<close> block.
\<close>

definition resolve_nb :: "('s, 'd) env \<Rightarrow> 's \<Rightarrow> path \<Rightarrow> string \<Rightarrow> string + path" where
  "resolve_nb env s base_dir nb =
     (if \<not> is_absolute (Path nb) then resolve env s base_dir (joinpath base_dir nb)
      else Inr (Path nb))"

text \<open>
  The sequential loop (lines 100 to 106). \<open>Some code\<close> is the end of the process
  with that exit status, \<open>None\<close> is the loop running to its end. An exception of
  \<^verbatim>\<open>run_notebook\<close> is caught and answered with \<^verbatim>\<open>sys.exit(1)\<close>; an exception
  of \<^verbatim>\<open>resolve()\<close> is not caught, and Python ends a process on an uncaught
  exception with status 1.
\<close>

fun run_seq ::
  "('s, 'd) env \<Rightarrow> config \<Rightarrow> path \<Rightarrow> path \<Rightarrow> string list \<Rightarrow> 's
     \<Rightarrow> int option \<times> 's \<times> 'd event list" where
  "run_seq env cfg base_dir out_dir [] s = (None, s, [])"
| "run_seq env cfg base_dir out_dir (nb # nbs) s =
     (case resolve_nb env s base_dir nb of
        Inl e \<Rightarrow> (Some 1, s, [])
      | Inr nb_path \<Rightarrow>
          (case run_notebook env cfg nb_path out_dir s of
             (Inl e, s1, evs1) \<Rightarrow> (Some 1, s1, evs1)
           | (Inr saved, s1, evs1) \<Rightarrow>
               (case run_seq env cfg base_dir out_dir nbs s1 of
                  (r, s2, evs2) \<Rightarrow> (r, s2, evs1 @ evs2))))"

text \<open>
  The process pool (lines 112 to 115). Each submitted task is one call of
  \<^verbatim>\<open>run_notebook\<close> in a worker process; the model runs every task whole. The
  submitting loop resolves an entry and submits it; when \<^verbatim>\<open>resolve()\<close> raises, the
  loop ends there, the \<^verbatim>\<open>with\<close> block waits for the tasks already submitted, and
  the exception leaves \<^verbatim>\<open>main\<close>. The result of every task is kept with its path,
  as the dictionary \<^verbatim>\<open>futures\<close> does, and the exception of the loop, if any, beside
  them.
\<close>

definition pool_order :: "nat \<Rightarrow> bool \<Rightarrow> 'a list \<Rightarrow> 'a list" where
  "pool_order max_workers swap tasks = (if 2 \<le> max_workers \<and> swap then rev tasks else tasks)"

fun run_tasks ::
  "('s, 'd) env \<Rightarrow> config \<Rightarrow> path \<Rightarrow> path list \<Rightarrow> 's
     \<Rightarrow> (path \<times> (exn + path)) list \<times> 's \<times> 'd event list" where
  "run_tasks env cfg out_dir [] s = ([], s, [])"
| "run_tasks env cfg out_dir (nb_path # ps) s =
     (case run_notebook env cfg nb_path out_dir s of
        (r, s1, evs1) \<Rightarrow>
          (case run_tasks env cfg out_dir ps s1 of
             (rs, s2, evs2) \<Rightarrow> ((nb_path, r) # rs, s2, evs1 @ evs2)))"

fun resolve_all ::
  "('s, 'd) env \<Rightarrow> 's \<Rightarrow> path \<Rightarrow> string list \<Rightarrow> path list \<times> string option" where
  \<comment> \<open>the entries resolved before the first exception, and that exception\<close>
  "resolve_all env s base_dir [] = ([], None)"
| "resolve_all env s base_dir (nb # nbs) =
     (case resolve_nb env s base_dir nb of
        Inl e \<Rightarrow> ([], Some e)
      | Inr nb_path \<Rightarrow>
          (case resolve_all env s base_dir nbs of (ps, err) \<Rightarrow> (nb_path # ps, err)))"

fun submit_eager ::
  "('s, 'd) env \<Rightarrow> config \<Rightarrow> path \<Rightarrow> path \<Rightarrow> string list \<Rightarrow> 's
     \<Rightarrow> (path \<times> (exn + path)) list \<times> string option \<times> 's \<times> 'd event list" where
  \<comment> \<open>every task runs as soon as it is submitted\<close>
  "submit_eager env cfg base_dir out_dir [] s = ([], None, s, [])"
| "submit_eager env cfg base_dir out_dir (nb # nbs) s =
     (case resolve_nb env s base_dir nb of
        Inl e \<Rightarrow> ([], Some e, s, [])
      | Inr nb_path \<Rightarrow>
          (case run_notebook env cfg nb_path out_dir s of
             (r, s1, evs1) \<Rightarrow>
               (case submit_eager env cfg base_dir out_dir nbs s1 of
                  (rs, err, s2, evs2) \<Rightarrow> ((nb_path, r) # rs, err, s2, evs1 @ evs2))))"

definition run_pool ::
  "('s, 'd) env \<Rightarrow> config \<Rightarrow> path \<Rightarrow> path \<Rightarrow> nat \<Rightarrow> string list \<Rightarrow> 's
     \<Rightarrow> (path \<times> (exn + path)) list \<times> string option \<times> 's \<times> 'd event list" where
  "run_pool env cfg base_dir out_dir max_workers par s =
     (case pool_schedule env of
        Eager \<Rightarrow> submit_eager env cfg base_dir out_dir par s
      | sched \<Rightarrow>
          (case resolve_all env s base_dir par of
             (ps, err) \<Rightarrow>
               (case run_tasks env cfg out_dir
                       (pool_order max_workers (sched = Swapped) ps) s of
                  (futures, s2, evs2) \<Rightarrow> (futures, err, s2, evs2))))"

text \<open>
  The loop over the completed futures (lines 117 to 124): the value of
  \<^verbatim>\<open>had_error\<close> after it.
\<close>

definition drain :: "(path \<times> (exn + path)) list \<Rightarrow> bool" where
  "drain futures =
     foldl (\<lambda>had_error (nb_path, r). case r of Inl e \<Rightarrow> True | Inr v \<Rightarrow> had_error)
       False futures"

text \<open>Lines 90 and 91: the working directory and the output directory.\<close>

definition base_dir_of :: "('s, 'd) env \<Rightarrow> path" where
  "base_dir_of env = Path (getcwd env)"

definition out_dir_of :: "('s, 'd) env \<Rightarrow> config \<Rightarrow> path" where
  "out_dir_of env cfg = joinpath (base_dir_of env) (OUT_DIRNAME cfg)"

text \<open>
  \<^verbatim>\<open>main\<close> (lines 85 to 129): the exit status of the process, the state of the
  outside world and the effects.
\<close>

definition main :: "('s, 'd) env \<Rightarrow> config \<Rightarrow> 's \<Rightarrow> int \<times> 's \<times> 'd event list" where
  "main env cfg s =
     (if NOTEBOOKS cfg = [] then (2, s, [])
      else
        (let base_dir = base_dir_of env;
             out_dir = out_dir_of env cfg;
             seq = seq_part (NOTEBOOKS cfg);
             par = par_part (NOTEBOOKS cfg)
         in case run_seq env cfg base_dir out_dir seq s of
              (Some code, s1, evs1) \<Rightarrow> (code, s1, evs1)
            | (None, s1, evs1) \<Rightarrow>
                if par \<noteq> [] then
                  (let max_workers = min 2 (length par)
                   in case run_pool env cfg base_dir out_dir max_workers par s1 of
                        (futures, Some e, s2, evs2) \<Rightarrow>
                          (1, s2, evs1 @ Pool max_workers # evs2)
                      | (futures, None, s2, evs2) \<Rightarrow>
                          if drain futures \<and> \<not> ALLOW_ERRORS cfg
                          then (1, s2, evs1 @ Pool max_workers # evs2)
                          else (0, s2, evs1 @ Pool max_workers # evs2))
                else (0, s1, evs1)))"

text \<open>
  A path \<open>p\<close> is what an entry \<open>nb\<close> of the list resolves to, in some state of
  the outside world.
\<close>

definition resolves_to :: "('s, 'd) env \<Rightarrow> path \<Rightarrow> path \<Rightarrow> string \<Rightarrow> bool" where
  "resolves_to env base_dir p nb = (\<exists>t. resolve_nb env t base_dir nb = Inr p)"

section \<open>An example world\<close>

text \<open>
  A small outside world to run the model in. The state is the list of paths that
  exist. The names \<^verbatim>\<open>l1.ipynb\<close> and \<^verbatim>\<open>l2.ipynb\<close> are symbolic links to
  \<^verbatim>\<open>t.ipynb\<close> beside them, and \<^verbatim>\<open>loop\<close> is a link to itself. Nothing under a
  directory named \<^verbatim>\<open>locked\<close> can be looked at. Every existing file parses to a
  document that is its own name, except \<^verbatim>\<open>broken.ipynb\<close>. The engine fails a cell in
  \<^verbatim>\<open>bad.ipynb\<close> unless errors are tolerated, dies on \<^verbatim>\<open>crash.ipynb\<close> and completes
  every other notebook. Printing, creating a directory and writing a file always
  work, and pool tasks run in the order of submission.
\<close>

definition ex_follow :: "string list \<Rightarrow> string + string list" where
  "ex_follow ps =
     (if ''loop'' \<in> set ps then Inl ''Symlink loop''
      else Inr (map (\<lambda>c. if c = ''l1.ipynb'' \<or> c = ''l2.ipynb'' then ''t.ipynb'' else c)
                  (collapse [] ps)))"

definition ex_env :: "(path list, string) env" where
  "ex_env =
     \<lparr>getcwd = ''/work'',
      follow = (\<lambda>s. ex_follow),
      path_exists = (\<lambda>s p.
         if ''locked'' \<in> set (parts p) then Inl ''Permission denied'' else Inr (p \<in> set s)),
      print_msg = (\<lambda>s m. Inr s),
      read_nb = (\<lambda>s p. if name p = ''broken.ipynb'' then Inl ''not a notebook'' else Inr (name p)),
      preprocess = (\<lambda>s t k a wd nb.
         if nb = ''bad.ipynb'' \<and> \<not> a then (CellFailed ''cell 3'' (nb @ '' partial''), s)
         else if nb = ''crash.ipynb'' then (Crashed ''kernel died'', s)
         else (Completed (nb @ '' done''), s)),
      mkdir = (\<lambda>s d. Inr (if d \<in> set s then s else s @ [d])),
      open_w = (\<lambda>s p. Inr (if p \<in> set s then s else s @ [p])),
      nbformat_write = (\<lambda>s p nb. Inr s),
      pool_schedule = InOrder\<rparr>"

text \<open>
  Three variations: the output directory cannot be created (a regular file has its
  name); the console cannot encode the marks of the last two messages; the file
  system has no symbolic links at all.
\<close>

definition ex_blocked :: "(path list, string) env" where
  "ex_blocked = ex_env\<lparr>mkdir := (\<lambda>s d. Inl ''File exists'')\<rparr>"

definition ex_ascii :: "(path list, string) env" where
  "ex_ascii =
     ex_env\<lparr>print_msg := (\<lambda>s m. case m of Starting p \<Rightarrow> Inr s | _ \<Rightarrow> Inl ''cannot encode'')\<rparr>"


definition ex_out :: path where
  "ex_out = Path ''/work/executed''"

definition ex_config :: config where
  "ex_config =
     default_config\<lparr>NOTEBOOKS :=
       [''a.ipynb'', ''bad.ipynb'', ''c.ipynb'', ''d.ipynb'', ''e.ipynb'']\<rparr>"

definition ex_files :: "path list" where
  "ex_files =
     map Path [''/work/a.ipynb'', ''/work/bad.ipynb'', ''/work/c.ipynb'', ''/work/d.ipynb'',
       ''/work/e.ipynb'']"





definition ex_same_stem :: config where
  "ex_same_stem = default_config\<lparr>NOTEBOOKS := [''a/x.ipynb'', ''b/x.ipynb'']\<rparr>"

definition ex_links :: config where
  "ex_links = default_config\<lparr>NOTEBOOKS := [''l1.ipynb'', ''l2.ipynb'']\<rparr>"

definition ex_loop_seq :: config where
  "ex_loop_seq =
     default_config\<lparr>NOTEBOOKS :=
       [''a.ipynb'', ''loop/x.ipynb'', ''c.ipynb'', ''d.ipynb'', ''e.ipynb'']\<rparr>"

section \<open>Facts about the partition\<close>

lemma slice_bound_minus2: "slice_bound n (- 2) = n - 2"
  by (simp add: slice_bound_def)

lemma seq_part_take: "seq_part xs = take (length xs - 2) xs"
  by (simp add: seq_part_def slice_to_def slice_bound_minus2)

lemma par_part_drop: "par_part xs = drop (length xs - 2) xs"
  by (simp add: par_part_def slice_from_def slice_bound_minus2)

lemma length_par_part: "length (par_part xs) = min 2 (length xs)"
  by (simp add: par_part_drop)

section \<open>Facts about paths\<close>

lemma split_sep_nonempty: "split_sep s \<noteq> []"
  by (induction s) (auto split: list.splits)

lemma split_sep_no_sep: "CHR ''/'' \<notin> set b \<Longrightarrow> split_sep b = [b]"
  by (induction b) auto

lemma split_sep_parts: "w \<in> set (split_sep s) \<Longrightarrow> CHR ''/'' \<notin> set w"
  by (induction s arbitrary: w) (auto split: if_splits list.splits)

lemma split_sep_append:
  "CHR ''/'' \<notin> set b \<Longrightarrow>
   split_sep (a @ b) = butlast (split_sep a) @ [last (split_sep a) @ b]"
proof (induction a)
  case Nil
  then show ?case by (simp add: split_sep_no_sep)
next
  case (Cons c a)
  show ?case
  proof (cases "c = CHR ''/''")
    case True
    then show ?thesis using Cons by (simp add: split_sep_nonempty)
  next
    case False
    obtain w ws where ws: "split_sep a = w # ws"
      using split_sep_nonempty [of a] by (cases "split_sep a") auto
    show ?thesis
    proof (cases ws)
      case Nil
      then show ?thesis using False Cons ws by simp
    next
      case (Cons v vs)
      then show ?thesis using False Cons.IH Cons.prems ws by simp
    qed
  qed
qed

lemma splitroot_append:
  assumes "suf \<noteq> []" "hd suf \<noteq> CHR ''/''"
  shows "\<exists>t. snd (splitroot (s @ suf)) = t @ suf"
proof -
  obtain x xs where suf: "suf = x # xs" "x \<noteq> CHR ''/''"
    using assms by (cases suf) auto
  consider "s = []" | a where "s = [a]" | a b t where "s = a # b # t"
    by (cases s; cases "tl s") auto
  then show ?thesis
  proof cases
    case 1
    then show ?thesis using suf by (simp add: splitroot_def)
  next
    case 2
    then show ?thesis using suf by (auto simp: splitroot_def)
  next
    case 3
    then show ?thesis using suf by (cases t) (auto simp: splitroot_def)
  qed
qed

lemma name_Path_suffix:
  assumes "CHR ''/'' \<notin> set suf" "2 \<le> length suf"
  shows "\<exists>t. parts (Path (s @ suf)) \<noteq> [] \<and> name (Path (s @ suf)) = t @ suf"
proof -
  have ne: "suf \<noteq> []" using assms(2) by auto
  then have "hd suf \<noteq> CHR ''/''" using assms(1) by (cases suf) auto
  then obtain t where t: "snd (splitroot (s @ suf)) = t @ suf"
    using splitroot_append [OF ne] by blast
  let ?l = "last (split_sep t) @ suf"
  have l: "?l \<noteq> [] \<and> ?l \<noteq> ''.''" using assms(2) by (cases suf; cases "tl suf") auto
  have "parts (Path (s @ suf)) =
          filter (\<lambda>x. x \<noteq> [] \<and> x \<noteq> ''.'') (split_sep (snd (splitroot (s @ suf))))"
    by (simp add: Path_def split: prod.splits)
  also have "\<dots> = filter (\<lambda>x. x \<noteq> [] \<and> x \<noteq> ''.'') (butlast (split_sep t)) @ [?l]"
    using l by (simp add: t split_sep_append [OF assms(1)])
  finally have "parts (Path (s @ suf)) =
          filter (\<lambda>x. x \<noteq> [] \<and> x \<noteq> ''.'') (butlast (split_sep t)) @ [?l]" .
  then show ?thesis by (auto simp: name_def)
qed

lemma name_joinpath:
  "parts (Path x) \<noteq> [] \<Longrightarrow> name (joinpath d x) = name (Path x)"
  by (simp add: joinpath_def name_def Let_def)

lemma out_path_neq_failed_path: "out_path d p \<noteq> failed_path d q"
proof
  assume eq: "out_path d p = failed_path d q"
  obtain t where t: "parts (Path (stem p @ ''_executed.ipynb'')) \<noteq> []"
      "name (Path (stem p @ ''_executed.ipynb'')) = t @ ''_executed.ipynb''"
    using name_Path_suffix [of "''_executed.ipynb''" "stem p"] by auto
  obtain u where u: "parts (Path (stem q @ ''_FAILED.ipynb'')) \<noteq> []"
      "name (Path (stem q @ ''_FAILED.ipynb'')) = u @ ''_FAILED.ipynb''"
    using name_Path_suffix [of "''_FAILED.ipynb''" "stem q"] by auto
  have "name (out_path d p) = t @ ''_executed.ipynb''"
    using t by (simp add: out_path_def name_joinpath)
  moreover have "name (failed_path d q) = u @ ''_FAILED.ipynb''"
    using u by (simp add: failed_path_def name_joinpath)
  ultimately have "t @ ''_executed.ipynb'' = u @ ''_FAILED.ipynb''"
    using eq by simp
  then have "rev (t @ ''_executed.ipynb'') = rev (u @ ''_FAILED.ipynb'')" by simp
  then show False by simp
qed

lemma Path_parts_no_sep: "w \<in> set (parts (Path s)) \<Longrightarrow> CHR ''/'' \<notin> set w"
  by (auto simp: Path_def split: prod.splits dest: split_sep_parts)

lemma stem_subset: "set (stem p) \<subseteq> set (name p)"
  by (auto simp: stem_def split: option.splits dest: in_set_takeD)

lemma stem_no_sep:
  assumes "\<And>w. w \<in> set (parts p) \<Longrightarrow> CHR ''/'' \<notin> set w"
  shows "CHR ''/'' \<notin> set (stem p)"
proof -
  have "CHR ''/'' \<notin> set (name p)"
    using assms by (auto simp: name_def)
  then show ?thesis using stem_subset by blast
qed

lemma Path_single:
  assumes "CHR ''/'' \<notin> set x" "2 \<le> length x"
  shows "Path x = \<lparr>root = [], parts = [x]\<rparr>"
proof -
  obtain a b r where x: "x = a # b # r" using assms(2) by (cases x; cases "tl x") auto
  then have "a \<noteq> CHR ''/''" using assms(1) by auto
  then have sr: "splitroot x = ([], x)" using x by (simp add: splitroot_def)
  have ss: "split_sep x = [x]" using assms(1) by (rule split_sep_no_sep)
  have ne: "x \<noteq> [] \<and> x \<noteq> ''.''" using assms(2) by auto
  show ?thesis unfolding Path_def sr using ss ne by simp
qed

lemma joinpath_single:
  assumes "CHR ''/'' \<notin> set x" "2 \<le> length x"
  shows "joinpath d x = \<lparr>root = root d, parts = parts d @ [x]\<rparr>"
  by (simp add: joinpath_def Path_single [OF assms] is_absolute_def)

lemma out_path_eq_iff:
  assumes "CHR ''/'' \<notin> set (stem p)" "CHR ''/'' \<notin> set (stem q)"
  shows "(out_path d p = out_path d q) = (stem p = stem q)"
    and "(failed_path d p = failed_path d q) = (stem p = stem q)"
proof -
  have "joinpath d (stem p @ ''_executed.ipynb'') = \<lparr>root = root d, parts = parts d @ [stem p @ ''_executed.ipynb'']\<rparr>"
    using assms(1) by (intro joinpath_single) auto
  moreover have "joinpath d (stem q @ ''_executed.ipynb'') = \<lparr>root = root d, parts = parts d @ [stem q @ ''_executed.ipynb'']\<rparr>"
    using assms(2) by (intro joinpath_single) auto
  ultimately show "(out_path d p = out_path d q) = (stem p = stem q)"
    by (simp add: out_path_def)
  have "joinpath d (stem p @ ''_FAILED.ipynb'') = \<lparr>root = root d, parts = parts d @ [stem p @ ''_FAILED.ipynb'']\<rparr>"
    using assms(1) by (intro joinpath_single) auto
  moreover have "joinpath d (stem q @ ''_FAILED.ipynb'') = \<lparr>root = root d, parts = parts d @ [stem q @ ''_FAILED.ipynb'']\<rparr>"
    using assms(2) by (intro joinpath_single) auto
  ultimately show "(failed_path d p = failed_path d q) = (stem p = stem q)"
    by (simp add: failed_path_def)
qed

section \<open>Facts about effects\<close>

lemma created_append: "created (xs @ ys) = created xs @ created ys"
  by (induction xs rule: created.induct) simp_all


lemma invoked_append: "invoked (xs @ ys) = invoked xs @ invoked ys"
  by (induction xs rule: invoked.induct) simp_all

lemma executed_append: "executed (xs @ ys) = executed xs @ executed ys"
  by (induction xs rule: executed.induct) simp_all

lemma pools_append: "pools (xs @ ys) = pools xs @ pools ys"
  by (induction xs rule: pools.induct) simp_all

lemma write_copy_cases:
  assumes "write_copy env s out_dir target nb = (r, s', evs)"
  shows "(r = Inr target \<and> evs = [Mkdir out_dir, Create target, Write target nb])
         \<or> ((\<exists>e. r = Inl e)
             \<and> (evs = [] \<or> evs = [Mkdir out_dir] \<or> evs = [Mkdir out_dir, Create target]))"
  using assms by (auto simp: write_copy_def split: sum.splits)

section \<open>Facts about one notebook\<close>

text \<open>
  The same call, told from the engine's outcome on: with \<open>pre\<close> the effects up to
  the engine run.
\<close>

lemma run_notebook_none:
  assumes "engine_run env cfg nb_path s = None"
  shows "\<exists>x. (x = FileNotFoundError nb_path \<or> (\<exists>e. x = OtherError e))
           \<and> (run_notebook env cfg nb_path out_dir s = (Inl x, s, [Invoke nb_path])
                \<or> (\<exists>s0. run_notebook env cfg nb_path out_dir s
                      = (Inl x, s0, [Invoke nb_path, Print (Starting nb_path), Read nb_path])))"
  using assms
  by (auto simp: engine_run_def run_notebook_def split: sum.splits if_splits)

lemma run_notebook_crashed:
  assumes "engine_run env cfg nb_path s = Some (Crashed e, s1)"
  shows "run_notebook env cfg nb_path out_dir s =
           (Inl (OtherError e), s1,
            [Invoke nb_path, Print (Starting nb_path), Read nb_path, Execute nb_path])"
  using assms
  by (auto simp: engine_run_def run_notebook_def split: sum.splits if_splits)

lemma run_notebook_completed:
  assumes "engine_run env cfg nb_path s = Some (Completed nb1, s1)"
    and "write_copy env s1 out_dir (out_path out_dir nb_path) nb1 = (w, s2, wevs)"
  shows "run_notebook env cfg nb_path out_dir s =
           (case w of
              Inl e \<Rightarrow>
                (Inl (OtherError e), s2,
                 [Invoke nb_path, Print (Starting nb_path), Read nb_path, Execute nb_path] @ wevs)
            | Inr saved \<Rightarrow>
                (case print_msg env s2 (Finished saved) of
                   Inl e \<Rightarrow>
                     (Inl (OtherError e), s2,
                      [Invoke nb_path, Print (Starting nb_path), Read nb_path, Execute nb_path]
                      @ wevs)
                 | Inr s3 \<Rightarrow>
                     (Inr saved, s3,
                      [Invoke nb_path, Print (Starting nb_path), Read nb_path, Execute nb_path]
                      @ wevs @ [Print (Finished saved)])))"
  using assms
  by (auto simp: engine_run_def run_notebook_def split: sum.splits if_splits)

lemma run_notebook_cell_failed:
  assumes "engine_run env cfg nb_path s = Some (CellFailed exc nb1, s1)"
    and "write_copy env s1 out_dir (failed_path out_dir nb_path) nb1 = (w, s2, wevs)"
  shows "run_notebook env cfg nb_path out_dir s =
           (case w of
              Inl e \<Rightarrow>
                (Inl (OtherError e), s2,
                 [Invoke nb_path, Print (Starting nb_path), Read nb_path, Execute nb_path] @ wevs)
            | Inr saved \<Rightarrow>
                (case print_msg env s2 (PartialSaved nb_path saved) of
                   Inl e \<Rightarrow>
                     (Inl (OtherError e), s2,
                      [Invoke nb_path, Print (Starting nb_path), Read nb_path, Execute nb_path]
                      @ wevs)
                 | Inr s3 \<Rightarrow>
                     (Inl (CellExecutionError exc), s3,
                      [Invoke nb_path, Print (Starting nb_path), Read nb_path, Execute nb_path]
                      @ wevs @ [Print (PartialSaved nb_path saved)])))"
  using assms
  by (auto simp: engine_run_def run_notebook_def split: sum.splits if_splits)

lemma run_notebook_invoked:
  "run_notebook env cfg p out s = (r, s', evs) \<Longrightarrow> invoked evs = [p]"
  by (auto simp: run_notebook_def write_copy_def
      split: if_splits sum.splits prod.splits engine_result.splits)

lemma run_notebook_pools:
  "run_notebook env cfg p out s = (r, s', evs) \<Longrightarrow> pools evs = []"
  by (auto simp: run_notebook_def write_copy_def
      split: if_splits sum.splits prod.splits engine_result.splits)

lemma run_notebook_shape:
  assumes run: "run_notebook env cfg nb_path out_dir s = (r, s', evs)"
  shows "(engine_run env cfg nb_path s = None \<and> created evs = [] \<and> written evs = []
          \<and> executed evs = [] \<and> (\<exists>x. r = Inl x \<and> (\<forall>exc. x \<noteq> CellExecutionError exc)))
    \<or> (\<exists>e s1. engine_run env cfg nb_path s = Some (Crashed e, s1) \<and> r = Inl (OtherError e)
          \<and> s' = s1 \<and> created evs = [] \<and> written evs = [])
    \<or> (\<exists>nb1 s1. engine_run env cfg nb_path s = Some (Completed nb1, s1)
          \<and> ((r = Inr (out_path out_dir nb_path) \<and> created evs = [out_path out_dir nb_path]
               \<and> written evs = [out_path out_dir nb_path]
               \<and> Write (out_path out_dir nb_path) nb1 \<in> set evs)
              \<or> ((\<exists>e. r = Inl (OtherError e))
                  \<and> ((created evs = [] \<and> written evs = [])
                      \<or> (created evs = [out_path out_dir nb_path] \<and> written evs = [])
                      \<or> (created evs = [out_path out_dir nb_path]
                          \<and> written evs = [out_path out_dir nb_path]
                          \<and> Write (out_path out_dir nb_path) nb1 \<in> set evs)))))
    \<or> (\<exists>exc nb1 s1. engine_run env cfg nb_path s = Some (CellFailed exc nb1, s1)
          \<and> ((r = Inl (CellExecutionError exc) \<and> created evs = [failed_path out_dir nb_path]
               \<and> written evs = [failed_path out_dir nb_path]
               \<and> Write (failed_path out_dir nb_path) nb1 \<in> set evs)
              \<or> ((\<exists>e. r = Inl (OtherError e))
                  \<and> ((created evs = [] \<and> written evs = [])
                      \<or> (created evs = [failed_path out_dir nb_path] \<and> written evs = [])
                      \<or> (created evs = [failed_path out_dir nb_path]
                          \<and> written evs = [failed_path out_dir nb_path]
                          \<and> Write (failed_path out_dir nb_path) nb1 \<in> set evs)))))"
proof (cases "engine_run env cfg nb_path s")
  case None
  from run_notebook_none [OF None, of out_dir] run
  have "created evs = [] \<and> written evs = [] \<and> executed evs = []
      \<and> (\<exists>x. r = Inl x \<and> (\<forall>exc. x \<noteq> CellExecutionError exc))"
    by auto
  then show ?thesis using None by blast
next
  case (Some a)
  then obtain res s1 where a: "engine_run env cfg nb_path s = Some (res, s1)"
    by (cases a) auto
  show ?thesis
  proof (cases res)
    case (Crashed e)
    then show ?thesis using run_notebook_crashed [of env cfg nb_path s e s1 out_dir] a run
      by auto
  next
    case (Completed nb1)
    obtain w s2 wevs where w: "write_copy env s1 out_dir (out_path out_dir nb_path) nb1 = (w, s2, wevs)"
      by (metis prod_cases3)
    note shape = run_notebook_completed [OF a [unfolded Completed] w]
    from write_copy_cases [OF w] show ?thesis
    proof (elim disjE conjE exE)
      assume "w = Inr (out_path out_dir nb_path)"
        "wevs = [Mkdir out_dir, Create (out_path out_dir nb_path), Write (out_path out_dir nb_path) nb1]"
      then show ?thesis using shape run a Completed
        by (auto split: sum.splits)
    next
      fix e assume "w = Inl e" "wevs = []"
      then show ?thesis using shape run a Completed by auto
    next
      fix e assume "w = Inl e" "wevs = [Mkdir out_dir]"
      then show ?thesis using shape run a Completed by auto
    next
      fix e assume "w = Inl e" "wevs = [Mkdir out_dir, Create (out_path out_dir nb_path)]"
      then show ?thesis using shape run a Completed by auto
    qed
  next
    case (CellFailed exc nb1)
    obtain w s2 wevs where w: "write_copy env s1 out_dir (failed_path out_dir nb_path) nb1 = (w, s2, wevs)"
      by (metis prod_cases3)
    note shape = run_notebook_cell_failed [OF a [unfolded CellFailed] w]
    from write_copy_cases [OF w] show ?thesis
    proof (elim disjE conjE exE)
      assume "w = Inr (failed_path out_dir nb_path)"
        "wevs = [Mkdir out_dir, Create (failed_path out_dir nb_path), Write (failed_path out_dir nb_path) nb1]"
      then show ?thesis using shape run a CellFailed
        by (auto split: sum.splits)
    next
      fix e assume "w = Inl e" "wevs = []"
      then show ?thesis using shape run a CellFailed by auto
    next
      fix e assume "w = Inl e" "wevs = [Mkdir out_dir]"
      then show ?thesis using shape run a CellFailed by auto
    next
      fix e assume "w = Inl e" "wevs = [Mkdir out_dir, Create (failed_path out_dir nb_path)]"
      then show ?thesis using shape run a CellFailed by auto
    qed
  qed
qed

section \<open>Facts about the loops\<close>

lemma run_seq_invoked_ok:
  "run_seq env cfg b out nbs s = (None, s', evs) \<Longrightarrow>
   list_all2 (resolves_to env b) (invoked evs) nbs"
proof (induction nbs arbitrary: s s' evs)
  case Nil
  then show ?case by simp
next
  case (Cons nb nbs)
  from Cons.prems obtain p where p: "resolve_nb env s b nb = Inr p"
    by (cases "resolve_nb env s b nb") auto
  obtain r s1 e1 where rn: "run_notebook env cfg p out s = (r, s1, e1)"
    by (metis prod_cases3)
  obtain r2 s2 e2 where rs: "run_seq env cfg b out nbs s1 = (r2, s2, e2)"
    by (metis prod_cases3)
  from Cons.prems p rn rs obtain q where "r = Inr q" "r2 = None" "evs = e1 @ e2"
    by (cases r) auto
  moreover have "resolves_to env b p nb" using p by (auto simp: resolves_to_def)
  ultimately show ?case
    using Cons.IH [of s1 s2 e2] rs run_notebook_invoked [OF rn] by (simp add: invoked_append)
qed


lemma run_seq_pools: "run_seq env cfg b out nbs s = (r, s', evs) \<Longrightarrow> pools evs = []"
proof (induction nbs arbitrary: s r s' evs)
  case Nil
  then show ?case by simp
next
  case (Cons nb nbs)
  show ?case
  proof (cases "resolve_nb env s b nb")
    case (Inl e)
    then show ?thesis using Cons.prems by simp
  next
    case (Inr p)
    obtain r1 s1 e1 where rn: "run_notebook env cfg p out s = (r1, s1, e1)"
      by (metis prod_cases3)
    obtain r2 s2 e2 where rs: "run_seq env cfg b out nbs s1 = (r2, s2, e2)"
      by (metis prod_cases3)
    show ?thesis
      using Cons.prems Inr rn rs run_notebook_pools [OF rn] Cons.IH [OF rs]
      by (cases r1) (auto simp: pools_append)
  qed
qed

lemma run_seq_append:
  assumes "run_seq env cfg b out pre s = (None, s1, evs1)"
    and "run_seq env cfg b out rest s1 = (r, s2, evs2)"
  shows "run_seq env cfg b out (pre @ rest) s = (r, s2, evs1 @ evs2)"
  using assms
proof (induction pre arbitrary: s evs1)
  case Nil
  then show ?case by simp
next
  case (Cons a pre)
  from Cons.prems(1) obtain p where p: "resolve_nb env s b a = Inr p"
    by (cases "resolve_nb env s b a") auto
  obtain r1 t1 e1 where rn: "run_notebook env cfg p out s = (r1, t1, e1)"
    by (metis prod_cases3)
  obtain r2 t2 e2 where rs: "run_seq env cfg b out pre t1 = (r2, t2, e2)"
    by (metis prod_cases3)
  from Cons.prems(1) p rn rs obtain q where q: "r1 = Inr q" "r2 = None" "t2 = s1" "evs1 = e1 @ e2"
    by (cases r1) auto
  have "run_seq env cfg b out (pre @ rest) t1 = (r, s2, e2 @ evs2)"
    using Cons.IH [of t1 e2] rs q Cons.prems(2) by simp
  then show ?case using p rn q by simp
qed

lemma run_seq_fails:
  assumes "run_seq env cfg b out pre s = (None, s1, evs1)"
    and "resolve_nb env s1 b nb = Inr p"
    and "run_notebook env cfg p out s1 = (Inl e, s2, evs2)"
  shows "run_seq env cfg b out (pre @ nb # post) s = (Some 1, s2, evs1 @ evs2)"
proof -
  have "run_seq env cfg b out (nb # post) s1 = (Some 1, s2, evs2)"
    using assms(2,3) by simp
  from run_seq_append [OF assms(1) this] show ?thesis .
qed

lemma run_seq_unresolved:
  assumes "run_seq env cfg b out pre s = (None, s1, evs1)"
    and "resolve_nb env s1 b nb = Inl e"
  shows "run_seq env cfg b out (pre @ nb # post) s = (Some 1, s1, evs1)"
proof -
  have "run_seq env cfg b out (nb # post) s1 = (Some 1, s1, [])"
    using assms(2) by simp
  from run_seq_append [OF assms(1) this] show ?thesis by simp
qed

lemma run_seq_code: "run_seq env cfg b out nbs s = (Some c, s', evs) \<Longrightarrow> c = 1"
proof (induction nbs arbitrary: s s' evs)
  case Nil
  then show ?case by simp
next
  case (Cons nb nbs)
  show ?case
  proof (cases "resolve_nb env s b nb")
    case (Inl e)
    then show ?thesis using Cons.prems by simp
  next
    case (Inr p)
    obtain r1 s1 e1 where rn: "run_notebook env cfg p out s = (r1, s1, e1)"
      by (metis prod_cases3)
    obtain r2 s2 e2 where rs: "run_seq env cfg b out nbs s1 = (r2, s2, e2)"
      by (metis prod_cases3)
    show ?thesis
      using Cons.prems Inr rn rs Cons.IH [of s1 s2 e2] by (cases r1) auto
  qed
qed











lemma main_sequential_end:
  assumes "NOTEBOOKS cfg \<noteq> []"
    and "run_seq env cfg (base_dir_of env) (out_dir_of env cfg) (seq_part (NOTEBOOKS cfg)) s
           = (Some c, s1, evs1)"
  shows "main env cfg s = (1, s1, evs1)"
  using assms run_seq_code [OF assms(2)] by (simp add: main_def Let_def)







section \<open>Properties of executing one notebook\<close>

text \<open>
  Claim C2, as the code has it. A call of \<^verbatim>\<open>run_notebook\<close> opens at most one
  target for writing, \<open>stem_executed.ipynb\<close> or \<open>stem_FAILED.ipynb\<close> in the
  output directory, never both, and the two names differ; a document is written
  only into the opened target. A call that returns has written exactly the
  \<^verbatim>\<open>_executed\<close> copy, and the engine completed. A call that raises the cell
  execution error has written exactly the \<^verbatim>\<open>_FAILED\<close> copy, with the partially
  executed document and before the error reaches the caller, and the engine raised
  that error. The \<^verbatim>\<open>_executed\<close> target is opened only when the engine completed,
  the \<^verbatim>\<open>_FAILED\<close> target only when it failed a cell. An error of the engine that
  is not a cell execution error reaches the caller with its message unchanged and
  no target is opened; none is opened either when the call ends before the engine
  runs. When the engine completes, or fails a cell, and creating the directory,
  opening the target and writing the document raise nothing, the copy is written,
  and the call returns its path, or raises the cell execution error, provided the
  print that follows raises nothing.
\<close>

theorem run_notebook_one_output:
  fixes out_dir nb_path E F :: path
  defines "E \<equiv> joinpath out_dir (stem nb_path @ ''_executed.ipynb'')"
    and "F \<equiv> joinpath out_dir (stem nb_path @ ''_FAILED.ipynb'')"
  assumes run: "run_notebook env cfg nb_path out_dir s = (r, s', evs)"
  shows "E \<noteq> F
    \<and> (created evs = [] \<or> created evs = [E] \<or> created evs = [F])
    \<and> (written evs = [] \<or> written evs = created evs)
    \<and> (\<forall>p. r = Inr p \<longrightarrow>
          p = E \<and> written evs = [E]
          \<and> (\<exists>nb1 s1. engine_run env cfg nb_path s = Some (Completed nb1, s1)
                \<and> Write E nb1 \<in> set evs))
    \<and> (\<forall>exc. r = Inl (CellExecutionError exc) \<longrightarrow>
          written evs = [F]
          \<and> (\<exists>nb1 s1. engine_run env cfg nb_path s = Some (CellFailed exc nb1, s1)
                \<and> Write F nb1 \<in> set evs))
    \<and> (created evs = [E] \<longrightarrow>
          (\<exists>nb1 s1. engine_run env cfg nb_path s = Some (Completed nb1, s1)))
    \<and> (created evs = [F] \<longrightarrow>
          (\<exists>exc nb1 s1. engine_run env cfg nb_path s = Some (CellFailed exc nb1, s1)))
    \<and> (\<forall>e s1. engine_run env cfg nb_path s = Some (Crashed e, s1) \<longrightarrow>
          r = Inl (OtherError e) \<and> s' = s1 \<and> created evs = [])
    \<and> (engine_run env cfg nb_path s = None \<longrightarrow> created evs = [] \<and> executed evs = [])
    \<and> (\<forall>nb1 s1 s2 wevs.
          engine_run env cfg nb_path s = Some (Completed nb1, s1) \<and>
          write_copy env s1 out_dir E nb1 = (Inr E, s2, wevs) \<longrightarrow>
          written evs = [E]
          \<and> (\<forall>s3. print_msg env s2 (Finished E) = Inr s3 \<longrightarrow> r = Inr E \<and> s' = s3))
    \<and> (\<forall>exc nb1 s1 s2 wevs.
          engine_run env cfg nb_path s = Some (CellFailed exc nb1, s1) \<and>
          write_copy env s1 out_dir F nb1 = (Inr F, s2, wevs) \<longrightarrow>
          written evs = [F]
          \<and> (\<forall>s3. print_msg env s2 (PartialSaved nb_path F) = Inr s3 \<longrightarrow>
                r = Inl (CellExecutionError exc) \<and> s' = s3))"
proof -
  have E: "E = out_path out_dir nb_path" and F: "F = failed_path out_dir nb_path"
    by (simp_all add: E_def F_def out_path_def failed_path_def)
  have ne: "E \<noteq> F" unfolding E F by (rule out_path_neq_failed_path)
  note shape = run_notebook_shape [OF run, folded E F]
  have c2: "created evs = [] \<or> created evs = [E] \<or> created evs = [F]"
    using shape by blast
  have c3: "written evs = [] \<or> written evs = created evs"
    using shape by auto
  have c4: "\<forall>p. r = Inr p \<longrightarrow>
          p = E \<and> written evs = [E]
          \<and> (\<exists>nb1 s1. engine_run env cfg nb_path s = Some (Completed nb1, s1)
                \<and> Write E nb1 \<in> set evs)"
    using shape by auto
  have c5: "\<forall>exc. r = Inl (CellExecutionError exc) \<longrightarrow>
          written evs = [F]
          \<and> (\<exists>nb1 s1. engine_run env cfg nb_path s = Some (CellFailed exc nb1, s1)
                \<and> Write F nb1 \<in> set evs)"
    using shape by auto
  have c6: "created evs = [E] \<longrightarrow>
          (\<exists>nb1 s1. engine_run env cfg nb_path s = Some (Completed nb1, s1))"
    using shape ne by auto
  have c7: "created evs = [F] \<longrightarrow>
          (\<exists>exc nb1 s1. engine_run env cfg nb_path s = Some (CellFailed exc nb1, s1))"
    using shape ne by auto
  have c8: "\<forall>e s1. engine_run env cfg nb_path s = Some (Crashed e, s1) \<longrightarrow>
          r = Inl (OtherError e) \<and> s' = s1 \<and> created evs = []"
    using run_notebook_crashed [of env cfg nb_path s _ _ out_dir] run by auto
  have c9: "engine_run env cfg nb_path s = None \<longrightarrow> created evs = [] \<and> executed evs = []"
    using shape by auto
  have c10: "\<forall>nb1 s1 s2 wevs.
          engine_run env cfg nb_path s = Some (Completed nb1, s1) \<and>
          write_copy env s1 out_dir E nb1 = (Inr E, s2, wevs) \<longrightarrow>
          written evs = [E]
          \<and> (\<forall>s3. print_msg env s2 (Finished E) = Inr s3 \<longrightarrow> r = Inr E \<and> s' = s3)"
  proof (intro allI impI, elim conjE)
    fix nb1 s1 s2 wevs
    assume a: "engine_run env cfg nb_path s = Some (Completed nb1, s1)"
      and w: "write_copy env s1 out_dir E nb1 = (Inr E, s2, wevs)"
    have wevs: "wevs = [Mkdir out_dir, Create E, Write E nb1]"
      using write_copy_cases [OF w] by auto
    show "written evs = [E]
          \<and> (\<forall>s3. print_msg env s2 (Finished E) = Inr s3 \<longrightarrow> r = Inr E \<and> s' = s3)"
      using run_notebook_completed [OF a w [unfolded E]] run wevs
      by (auto simp: E split: sum.splits)
  qed
  have c11: "\<forall>exc nb1 s1 s2 wevs.
          engine_run env cfg nb_path s = Some (CellFailed exc nb1, s1) \<and>
          write_copy env s1 out_dir F nb1 = (Inr F, s2, wevs) \<longrightarrow>
          written evs = [F]
          \<and> (\<forall>s3. print_msg env s2 (PartialSaved nb_path F) = Inr s3 \<longrightarrow>
                r = Inl (CellExecutionError exc) \<and> s' = s3)"
  proof (intro allI impI, elim conjE)
    fix exc nb1 s1 s2 wevs
    assume a: "engine_run env cfg nb_path s = Some (CellFailed exc nb1, s1)"
      and w: "write_copy env s1 out_dir F nb1 = (Inr F, s2, wevs)"
    have wevs: "wevs = [Mkdir out_dir, Create F, Write F nb1]"
      using write_copy_cases [OF w] by auto
    show "written evs = [F]
          \<and> (\<forall>s3. print_msg env s2 (PartialSaved nb_path F) = Inr s3 \<longrightarrow>
                r = Inl (CellExecutionError exc) \<and> s' = s3)"
      using run_notebook_cell_failed [OF a w [unfolded F]] run wevs
      by (auto simp: F split: sum.splits)
  qed
  from ne c2 c3 c4 c5 c6 c7 c8 c9 c10 c11 show ?thesis by blast
qed

theorem run_notebook_one_output_witness:
  "fst (run_notebook ex_env default_config (Path ''/work/good.ipynb'') ex_out
          [Path ''/work/good.ipynb'']) = Inr (Path ''/work/executed/good_executed.ipynb'')
   \<and> written (snd (snd (run_notebook ex_env default_config (Path ''/work/good.ipynb'') ex_out
          [Path ''/work/good.ipynb'']))) = [Path ''/work/executed/good_executed.ipynb'']
   \<and> fst (run_notebook ex_env default_config (Path ''/work/bad.ipynb'') ex_out
          [Path ''/work/bad.ipynb'']) = Inl (CellExecutionError ''cell 3'')
   \<and> written (snd (snd (run_notebook ex_env default_config (Path ''/work/bad.ipynb'') ex_out
          [Path ''/work/bad.ipynb'']))) = [Path ''/work/executed/bad_FAILED.ipynb'']
   \<and> fst (run_notebook ex_env default_config (Path ''/work/crash.ipynb'') ex_out
          [Path ''/work/crash.ipynb'']) = Inl (OtherError ''kernel died'')
   \<and> created (snd (snd (run_notebook ex_env default_config (Path ''/work/crash.ipynb'') ex_out
          [Path ''/work/crash.ipynb'']))) = []"
proof -
  let ?run = "\<lambda>p. run_notebook ex_env default_config p ex_out [p]"
  have g: "fst (?run (Path ''/work/good.ipynb'')) = Inr (Path ''/work/executed/good_executed.ipynb'')"
    by code_simp
  have b: "fst (?run (Path ''/work/bad.ipynb'')) = Inl (CellExecutionError ''cell 3'')"
    by code_simp
  have c: "fst (?run (Path ''/work/crash.ipynb'')) = Inl (OtherError ''kernel died'')"
    by code_simp
  have ce: "engine_run ex_env default_config (Path ''/work/crash.ipynb'') [Path ''/work/crash.ipynb'']
              = Some (Crashed ''kernel died'', [Path ''/work/crash.ipynb''])"
    by code_simp
  have e: "joinpath ex_out (stem (Path ''/work/good.ipynb'') @ ''_executed.ipynb'')
             = Path ''/work/executed/good_executed.ipynb''"
    by code_simp
  have f: "joinpath ex_out (stem (Path ''/work/bad.ipynb'') @ ''_FAILED.ipynb'')
             = Path ''/work/executed/bad_FAILED.ipynb''"
    by code_simp
  have split: "?run p = (fst (?run p), fst (snd (?run p)), snd (snd (?run p)))" for p
    by simp
  have "written (snd (snd (?run (Path ''/work/good.ipynb'')))) = [Path ''/work/executed/good_executed.ipynb'']"
    using run_notebook_one_output [OF split [of "Path ''/work/good.ipynb''"]] g
    unfolding e by simp
  moreover have "written (snd (snd (?run (Path ''/work/bad.ipynb'')))) = [Path ''/work/executed/bad_FAILED.ipynb'']"
    using run_notebook_one_output [OF split [of "Path ''/work/bad.ipynb''"]] b
    unfolding f by simp
  moreover have "created (snd (snd (?run (Path ''/work/crash.ipynb'')))) = []"
    using run_notebook_one_output [OF split [of "Path ''/work/crash.ipynb''"]] ce by blast
  ultimately show ?thesis using g b c by simp
qed

text \<open>
  The engine completes, and in a second run fails a cell, and yet no file is
  written: the output directory cannot be created. And a call ends in an error of
  another kind with the copy written: the print after the write raises.
\<close>

theorem engine_done_nothing_written:
  "engine_run ex_blocked default_config (Path ''/work/a.ipynb'') ex_files
     = Some (Completed ''a.ipynb done'', ex_files)
   \<and> fst (run_notebook ex_blocked default_config (Path ''/work/a.ipynb'') ex_out ex_files)
       = Inl (OtherError ''File exists'')
   \<and> created (snd (snd (run_notebook ex_blocked default_config (Path ''/work/a.ipynb'')
         ex_out ex_files))) = []
   \<and> engine_run ex_blocked default_config (Path ''/work/bad.ipynb'') ex_files
     = Some (CellFailed ''cell 3'' ''bad.ipynb partial'', ex_files)
   \<and> fst (run_notebook ex_blocked default_config (Path ''/work/bad.ipynb'') ex_out ex_files)
       = Inl (OtherError ''File exists'')
   \<and> created (snd (snd (run_notebook ex_blocked default_config (Path ''/work/bad.ipynb'')
         ex_out ex_files))) = []
   \<and> fst (run_notebook ex_ascii default_config (Path ''/work/a.ipynb'') ex_out ex_files)
       = Inl (OtherError ''cannot encode'')
   \<and> written (snd (snd (run_notebook ex_ascii default_config (Path ''/work/a.ipynb'')
         ex_out ex_files))) = [Path ''/work/executed/a_executed.ipynb'']"
  by code_simp

text \<open>
  Claim C5, as the code has it. When \<^verbatim>\<open>exists()\<close> answers that nothing is at the
  notebook path, \<^verbatim>\<open>run_notebook\<close> raises \<^verbatim>\<open>FileNotFoundError\<close> at once: the engine
  has not been invoked, no file has been opened or written, and the outside world is
  as it was. When \<^verbatim>\<open>exists()\<close> itself raises, that error reaches the caller
  instead, in the same way: before any engine run and any write.
\<close>

theorem missing_notebook_not_found:
  "(path_exists env s nb_path = Inr False \<longrightarrow>
      run_notebook env cfg nb_path out_dir s
        = (Inl (FileNotFoundError nb_path), s, [Invoke nb_path]))
   \<and> (\<forall>e. path_exists env s nb_path = Inl e \<longrightarrow>
        run_notebook env cfg nb_path out_dir s = (Inl (OtherError e), s, [Invoke nb_path]))
   \<and> executed [Invoke nb_path] = [] \<and> created [Invoke nb_path] = []
   \<and> written [Invoke nb_path] = []"
  by (simp add: run_notebook_def)

theorem missing_notebook_not_found_witness:
  "run_notebook ex_env default_config (Path ''/work/absent.ipynb'') ex_out ex_files
     = (Inl (FileNotFoundError (Path ''/work/absent.ipynb'')), ex_files,
        [Invoke (Path ''/work/absent.ipynb'')])
   \<and> run_notebook ex_env default_config (Path ''/work/locked/n.ipynb'') ex_out ex_files
     = (Inl (OtherError ''Permission denied''), ex_files,
        [Invoke (Path ''/work/locked/n.ipynb'')])"
proof -
  have a: "path_exists ex_env ex_files (Path ''/work/absent.ipynb'') = Inr False"
    by code_simp
  have b: "path_exists ex_env ex_files (Path ''/work/locked/n.ipynb'') = Inl ''Permission denied''"
    by code_simp
  show ?thesis
    using missing_notebook_not_found [of ex_env ex_files "Path ''/work/absent.ipynb''"
        default_config ex_out] a
      missing_notebook_not_found [of ex_env ex_files "Path ''/work/locked/n.ipynb''"
        default_config ex_out] b
    by simp
qed

text \<open>
  A path at which nothing exists, under a directory that cannot be searched: the
  call fails with the error of the check, not with \<^verbatim>\<open>FileNotFoundError\<close>.
\<close>

theorem absent_but_not_not_found:
  "Path ''/work/locked/n.ipynb'' \<notin> set ex_files
   \<and> fst (run_notebook ex_env default_config (Path ''/work/locked/n.ipynb'') ex_out ex_files)
       = Inl (OtherError ''Permission denied'')"
  by code_simp

text \<open>
  Claim C8, as the code has it. The two copies of a notebook are named after the stem
  of the path its entry resolves to, in the one output directory and always with the
  extension \<^verbatim>\<open>.ipynb\<close>. So for two resolved paths (whose file names, as all file
  names, have no slash) the \<^verbatim>\<open>_executed\<close> names are equal, and the \<^verbatim>\<open>_FAILED\<close>
  names are equal, exactly when the stems are equal, and an \<^verbatim>\<open>_executed\<close> name
  never equals a \<^verbatim>\<open>_FAILED\<close> name.
\<close>

theorem output_paths_distinct_iff_stems:
  assumes "resolves_to env (base_dir_of env) p nb1"
    and "resolves_to env (base_dir_of env) q nb2"
    and "CHR ''/'' \<notin> set (stem p)" and "CHR ''/'' \<notin> set (stem q)"
  shows "out_path d p = \<lparr>root = root d, parts = parts d @ [stem p @ ''_executed.ipynb'']\<rparr>
    \<and> failed_path d p = \<lparr>root = root d, parts = parts d @ [stem p @ ''_FAILED.ipynb'']\<rparr>
    \<and> (out_path d p = out_path d q) = (stem p = stem q)
    \<and> (failed_path d p = failed_path d q) = (stem p = stem q)
    \<and> out_path d p \<noteq> failed_path d q
    \<and> (is_absolute (Path nb1) \<longrightarrow> p = Path nb1)"
proof -
  have a: "out_path d p = \<lparr>root = root d, parts = parts d @ [stem p @ ''_executed.ipynb'']\<rparr>"
    unfolding out_path_def using assms(3) by (intro joinpath_single) auto
  have b: "failed_path d p = \<lparr>root = root d, parts = parts d @ [stem p @ ''_FAILED.ipynb'']\<rparr>"
    unfolding failed_path_def using assms(3) by (intro joinpath_single) auto
  have c: "is_absolute (Path nb1) \<longrightarrow> p = Path nb1"
    using assms(1) by (auto simp: resolves_to_def resolve_nb_def)
  from a b c out_path_eq_iff [OF assms(3,4)] out_path_neq_failed_path show ?thesis
    by blast
qed

theorem output_paths_distinct_iff_stems_witness:
  "out_path ex_out (Path ''/work/a.ipynb'') = Path ''/work/executed/a_executed.ipynb''
   \<and> failed_path ex_out (Path ''/work/a.ipynb'') = Path ''/work/executed/a_FAILED.ipynb''
   \<and> out_path ex_out (Path ''/work/a.ipynb'') \<noteq> out_path ex_out (Path ''/work/c.ipynb'')
   \<and> failed_path ex_out (Path ''/work/a.ipynb'') \<noteq> failed_path ex_out (Path ''/work/c.ipynb'')
   \<and> out_path ex_out (Path ''/work/a.ipynb'') \<noteq> failed_path ex_out (Path ''/work/c.ipynb'')"
proof -
  have r1: "resolves_to ex_env (base_dir_of ex_env) (Path ''/work/a.ipynb'') ''a.ipynb''"
  proof -
    have "resolve_nb ex_env ex_files (base_dir_of ex_env) ''a.ipynb'' = Inr (Path ''/work/a.ipynb'')"
      by code_simp
    then show ?thesis unfolding resolves_to_def by blast
  qed
  have r2: "resolves_to ex_env (base_dir_of ex_env) (Path ''/work/c.ipynb'') ''c.ipynb''"
  proof -
    have "resolve_nb ex_env ex_files (base_dir_of ex_env) ''c.ipynb'' = Inr (Path ''/work/c.ipynb'')"
      by code_simp
    then show ?thesis unfolding resolves_to_def by blast
  qed
  have s1: "CHR ''/'' \<notin> set (stem (Path ''/work/a.ipynb''))" by code_simp
  have s2: "CHR ''/'' \<notin> set (stem (Path ''/work/c.ipynb''))" by code_simp
  have ne: "stem (Path ''/work/a.ipynb'') \<noteq> stem (Path ''/work/c.ipynb'')" by code_simp
  have e1: "\<lparr>root = root ex_out,
             parts = parts ex_out @ [stem (Path ''/work/a.ipynb'') @ ''_executed.ipynb'']\<rparr>
            = Path ''/work/executed/a_executed.ipynb''" by code_simp
  have e2: "\<lparr>root = root ex_out,
             parts = parts ex_out @ [stem (Path ''/work/a.ipynb'') @ ''_FAILED.ipynb'']\<rparr>
            = Path ''/work/executed/a_FAILED.ipynb''" by code_simp
  note t = output_paths_distinct_iff_stems [OF r1 r2 s1 s2, of ex_out]
  from t e1 have a: "out_path ex_out (Path ''/work/a.ipynb'') = Path ''/work/executed/a_executed.ipynb''"
    by (simp only:)
  from t e2 have b: "failed_path ex_out (Path ''/work/a.ipynb'') = Path ''/work/executed/a_FAILED.ipynb''"
    by (simp only:)
  from t ne have c: "out_path ex_out (Path ''/work/a.ipynb'') \<noteq> out_path ex_out (Path ''/work/c.ipynb'')"
    by blast
  from t ne have d: "failed_path ex_out (Path ''/work/a.ipynb'') \<noteq> failed_path ex_out (Path ''/work/c.ipynb'')"
    by blast
  from t have e: "out_path ex_out (Path ''/work/a.ipynb'') \<noteq> failed_path ex_out (Path ''/work/c.ipynb'')"
    by blast
  from a b c d e show ?thesis by (simp only: simp_thms)
qed

text \<open>
  Two different notebooks of the parallel subset with the same file name in different
  directories: both tasks write the same file. So do two entries that are symbolic
  links to one notebook.
\<close>

theorem same_stem_same_output:
  "''a/x.ipynb'' \<in> set (par_part (NOTEBOOKS ex_same_stem))
   \<and> ''b/x.ipynb'' \<in> set (par_part (NOTEBOOKS ex_same_stem))
   \<and> resolve_nb ex_env [] (base_dir_of ex_env) ''a/x.ipynb'' = Inr (Path ''/work/a/x.ipynb'')
   \<and> resolve_nb ex_env [] (base_dir_of ex_env) ''b/x.ipynb'' = Inr (Path ''/work/b/x.ipynb'')
   \<and> Path ''/work/a/x.ipynb'' \<noteq> Path ''/work/b/x.ipynb''
   \<and> out_path (out_dir_of ex_env ex_same_stem) (Path ''/work/a/x.ipynb'')
      = out_path (out_dir_of ex_env ex_same_stem) (Path ''/work/b/x.ipynb'')
   \<and> failed_path (out_dir_of ex_env ex_same_stem) (Path ''/work/a/x.ipynb'')
      = failed_path (out_dir_of ex_env ex_same_stem) (Path ''/work/b/x.ipynb'')
   \<and> written (snd (snd (main ex_env ex_same_stem
         [Path ''/work/a/x.ipynb'', Path ''/work/b/x.ipynb''])))
      = [Path ''/work/executed/x_executed.ipynb'', Path ''/work/executed/x_executed.ipynb'']
   \<and> ''l1.ipynb'' \<in> set (par_part (NOTEBOOKS ex_links))
   \<and> ''l2.ipynb'' \<in> set (par_part (NOTEBOOKS ex_links))
   \<and> written (snd (snd (main ex_env ex_links [Path ''/work/t.ipynb''])))
      = [Path ''/work/executed/t_executed.ipynb'', Path ''/work/executed/t_executed.ipynb'']"
  by code_simp

section \<open>Properties of the batch\<close>


text \<open>
  Claim C3. When a notebook of the sequential subset fails, for whatever reason,
  after the ones before it succeeded, \<^verbatim>\<open>main\<close> ends with status 1 right there:
  the notebooks \<^verbatim>\<open>run_notebook\<close> was called on are the ones up to the failing one,
  in order, none of the later sequential ones and none of the parallel ones, and no
  pool was created. The same holds when the entry cannot even be resolved: then the
  calls are those on the entries before it.
\<close>

theorem sequential_failure_halts:
  assumes "seq_part (NOTEBOOKS cfg) = pre @ nb # post"
    and "run_seq env cfg (base_dir_of env) (out_dir_of env cfg) pre s = (None, s1, evs1)"
  shows "(\<forall>nb_path e s2 evs2.
            resolve_nb env s1 (base_dir_of env) nb = Inr nb_path \<and>
            run_notebook env cfg nb_path (out_dir_of env cfg) s1 = (Inl e, s2, evs2) \<longrightarrow>
            main env cfg s = (1, s2, evs1 @ evs2)
            \<and> invoked (evs1 @ evs2) = invoked evs1 @ [nb_path]
            \<and> list_all2 (resolves_to env (base_dir_of env)) (invoked (evs1 @ evs2)) (pre @ [nb])
            \<and> pools (evs1 @ evs2) = [])
    \<and> (\<forall>e. resolve_nb env s1 (base_dir_of env) nb = Inl e \<longrightarrow>
            main env cfg s = (1, s1, evs1)
            \<and> list_all2 (resolves_to env (base_dir_of env)) (invoked evs1) pre
            \<and> pools evs1 = [])"
proof -
  have ne: "NOTEBOOKS cfg \<noteq> []"
    using assms(1) by (auto simp: seq_part_take)
  note pre_inv = run_seq_invoked_ok [OF assms(2)]
  note pre_pools = run_seq_pools [OF assms(2)]
  have a: "main env cfg s = (1, s2, evs1 @ evs2)
            \<and> invoked (evs1 @ evs2) = invoked evs1 @ [nb_path]
            \<and> list_all2 (resolves_to env (base_dir_of env)) (invoked (evs1 @ evs2)) (pre @ [nb])
            \<and> pools (evs1 @ evs2) = []"
    if r: "resolve_nb env s1 (base_dir_of env) nb = Inr nb_path"
      and f: "run_notebook env cfg nb_path (out_dir_of env cfg) s1 = (Inl e, s2, evs2)"
    for nb_path e s2 evs2
  proof -
    have "run_seq env cfg (base_dir_of env) (out_dir_of env cfg) (seq_part (NOTEBOOKS cfg)) s
            = (Some 1, s2, evs1 @ evs2)"
      using run_seq_fails [OF assms(2) r f] assms(1) by simp
    then have m: "main env cfg s = (1, s2, evs1 @ evs2)"
      by (rule main_sequential_end [OF ne])
    have i: "invoked (evs1 @ evs2) = invoked evs1 @ [nb_path]"
      using run_notebook_invoked [OF f] by (simp add: invoked_append)
    have "resolves_to env (base_dir_of env) nb_path nb"
      using r by (auto simp: resolves_to_def)
    then have l: "list_all2 (resolves_to env (base_dir_of env)) (invoked (evs1 @ evs2)) (pre @ [nb])"
      unfolding i using pre_inv by (simp add: list_all2_appendI)
    have p: "pools (evs1 @ evs2) = []"
      using pre_pools run_notebook_pools [OF f] by (simp add: pools_append)
    from m i l p show ?thesis by simp
  qed
  have b: "main env cfg s = (1, s1, evs1)
            \<and> list_all2 (resolves_to env (base_dir_of env)) (invoked evs1) pre
            \<and> pools evs1 = []"
    if r: "resolve_nb env s1 (base_dir_of env) nb = Inl e" for e
  proof -
    have "run_seq env cfg (base_dir_of env) (out_dir_of env cfg) (seq_part (NOTEBOOKS cfg)) s
            = (Some 1, s1, evs1)"
      using run_seq_unresolved [OF assms(2) r] assms(1) by simp
    then have "main env cfg s = (1, s1, evs1)"
      by (rule main_sequential_end [OF ne])
    then show ?thesis using pre_inv pre_pools by simp
  qed
  from a b show ?thesis by blast
qed

theorem sequential_failure_halts_witness:
  "fst (main ex_env ex_config ex_files) = 1
   \<and> invoked (snd (snd (main ex_env ex_config ex_files)))
       = [Path ''/work/a.ipynb'', Path ''/work/bad.ipynb'']
   \<and> pools (snd (snd (main ex_env ex_config ex_files))) = []
   \<and> fst (main ex_env ex_loop_seq ex_files) = 1
   \<and> invoked (snd (snd (main ex_env ex_loop_seq ex_files))) = [Path ''/work/a.ipynb'']"
proof -
  have split: "x = (fst x, fst (snd x), snd (snd x))" for x :: "'a \<times> 'b \<times> 'c"
    by simp
  let ?b = "base_dir_of ex_env"
  let ?o = "out_dir_of ex_env ex_config"
  let ?pre = "run_seq ex_env ex_config ?b ?o [''a.ipynb''] ex_files"
  let ?run = "run_notebook ex_env ex_config (Path ''/work/bad.ipynb'') ?o (fst (snd ?pre))"
  have h1: "seq_part (NOTEBOOKS ex_config) = [''a.ipynb''] @ ''bad.ipynb'' # [''c.ipynb'']"
    by code_simp
  have "fst ?pre = None" by code_simp
  then have h2: "?pre = (None, fst (snd ?pre), snd (snd ?pre))"
    using split [of ?pre] by simp
  have h3: "resolve_nb ex_env (fst (snd ?pre)) ?b ''bad.ipynb'' = Inr (Path ''/work/bad.ipynb'')"
    by code_simp
  have "fst ?run = Inl (CellExecutionError ''cell 3'')" by code_simp
  then have h4: "?run = (Inl (CellExecutionError ''cell 3''), fst (snd ?run), snd (snd ?run))"
    using split [of ?run] by simp
  have i1: "invoked (snd (snd ?pre)) = [Path ''/work/a.ipynb'']" by code_simp
  obtain t2 e2 where m: "main ex_env ex_config ex_files = (1, t2, e2)"
    and i: "invoked e2 = invoked (snd (snd ?pre)) @ [Path ''/work/bad.ipynb'']"
    and p: "pools e2 = []"
    using sequential_failure_halts [OF h1 h2] h3 h4 by blast
  have first: "fst (main ex_env ex_config ex_files) = 1
      \<and> invoked (snd (snd (main ex_env ex_config ex_files)))
          = [Path ''/work/a.ipynb'', Path ''/work/bad.ipynb'']
      \<and> pools (snd (snd (main ex_env ex_config ex_files))) = []"
    by (simp only: m fst_conv snd_conv i i1 p append.simps simp_thms)
  let ?q = "out_dir_of ex_env ex_loop_seq"
  let ?pre2 = "run_seq ex_env ex_loop_seq ?b ?q [''a.ipynb''] ex_files"
  have k1: "seq_part (NOTEBOOKS ex_loop_seq) = [''a.ipynb''] @ ''loop/x.ipynb'' # [''c.ipynb'']"
    by code_simp
  have "fst ?pre2 = None" by code_simp
  then have k2: "?pre2 = (None, fst (snd ?pre2), snd (snd ?pre2))"
    using split [of ?pre2] by simp
  have k3: "resolve_nb ex_env (fst (snd ?pre2)) ?b ''loop/x.ipynb'' = Inl ''Symlink loop''"
    by code_simp
  have i2: "invoked (snd (snd ?pre2)) = [Path ''/work/a.ipynb'']" by code_simp
  have m2: "main ex_env ex_loop_seq ex_files = (1, fst (snd ?pre2), snd (snd ?pre2))"
    using sequential_failure_halts [OF k1 k2] k3 by blast
  have second: "fst (main ex_env ex_loop_seq ex_files) = 1
      \<and> invoked (snd (snd (main ex_env ex_loop_seq ex_files))) = [Path ''/work/a.ipynb'']"
    by (simp only: m2 fst_conv snd_conv i2 simp_thms)
  from first second show ?thesis by (simp only: simp_thms)
qed








section \<open>Properties of the partition\<close>

text \<open>
  Claim C1. For every list of \<open>N\<close> notebooks the parallel subset is the last
  \<open>min 2 N\<close> entries and the sequential subset is everything before them. For
  \<open>N \<ge> 3\<close> the sequential subset is the first \<open>N - 2\<close> entries in their order and
  the parallel subset is the last two; for \<open>N = 1\<close> and \<open>N = 2\<close> the sequential
  subset is empty and the parallel subset is the whole list.
\<close>

theorem partition_last_two:
  "seq_part xs = take (length xs - min 2 (length xs)) xs
   \<and> par_part xs = drop (length xs - min 2 (length xs)) xs
   \<and> length (par_part xs) = min 2 (length xs)
   \<and> (3 \<le> length xs \<longrightarrow>
        seq_part xs = take (length xs - 2) xs
        \<and> par_part xs = [xs ! (length xs - 2), xs ! (length xs - 1)])
   \<and> (length xs = 1 \<or> length xs = 2 \<longrightarrow> seq_part xs = [] \<and> par_part xs = xs)"
proof -
  have a: "seq_part xs = take (length xs - min 2 (length xs)) xs"
    by (cases "2 \<le> length xs") (simp_all add: seq_part_take min_def)
  have b: "par_part xs = drop (length xs - min 2 (length xs)) xs"
    by (cases "2 \<le> length xs") (simp_all add: par_part_drop min_def)
  have c: "par_part xs = [xs ! (length xs - 2), xs ! (length xs - 1)]"
    if "3 \<le> length xs"
  proof (rule nth_equalityI)
    show "length (par_part xs) = length [xs ! (length xs - 2), xs ! (length xs - 1)]"
      using that by (simp add: length_par_part)
  next
    fix i assume "i < length (par_part xs)"
    then have "i < 2" by (simp add: length_par_part)
    then consider "i = 0" | "i = 1" by linarith
    then show "par_part xs ! i = [xs ! (length xs - 2), xs ! (length xs - 1)] ! i"
    proof cases
      case 1
      then show ?thesis using that by (simp add: par_part_drop)
    next
      case 2
      have "length xs - 2 + 1 = length xs - 1" using that by simp
      then show ?thesis using 2 that by (simp add: par_part_drop)
    qed
  qed
  have d: "seq_part xs = [] \<and> par_part xs = xs" if "length xs = 1 \<or> length xs = 2"
  proof -
    have "length xs - 2 = 0" using that by linarith
    then show ?thesis by (simp add: seq_part_take par_part_drop)
  qed
  have e: "length (par_part xs) = min 2 (length xs)"
    by (rule length_par_part)
  have f: "seq_part xs = take (length xs - 2) xs"
    by (rule seq_part_take)
  from a b c d e f show ?thesis by blast
qed

theorem partition_last_two_witness:
  "seq_part [''n1'', ''n2'', ''n3'', ''n4'', ''n5''] = [''n1'', ''n2'', ''n3'']
   \<and> par_part [''n1'', ''n2'', ''n3'', ''n4'', ''n5''] = [''n4'', ''n5'']
   \<and> seq_part [''n1'', ''n2''] = [] \<and> par_part [''n1'', ''n2''] = [''n1'', ''n2'']
   \<and> seq_part [''n1''] = [] \<and> par_part [''n1''] = [''n1'']"
  using partition_last_two [of "[''n1'', ''n2'', ''n3'', ''n4'', ''n5'']"]
    partition_last_two [of "[''n1'', ''n2'']"]
    partition_last_two [of "[''n1'']"]
  by simp

text \<open>
  Claim C9. The partition loses nothing and keeps the order: the sequential subset
  followed by the parallel subset is the configured list itself. This holds for every
  list, so in particular for every non-empty one.
\<close>

theorem partition_append: "seq_part xs @ par_part xs = xs"
  by (simp add: seq_part_take par_part_drop)

end
